theory Spec2Isabelle
  imports Complex_Main "HOL-Library.Multiset"
begin

section \<open>The audio dashboard of \<^verbatim>\<open>src/App.jsx\<close>\<close>

text \<open>
  The component keeps React state (\<^verbatim>\<open>useState\<close>), mutable cells (\<^verbatim>\<open>useRef\<close>) and
  Howler sound objects. The model passes one state record through every handler. A
  handler is a closure of the render it was created in, so it reads the value of
  \<^verbatim>\<open>currentBgmCategory\<close> of that render: the model gives that captured value to the
  handler as the argument \<open>cur\<close>, apart from the state cell that \<^verbatim>\<open>setCurrentBgmCategory\<close>
  writes. Console output is not modelled, and neither are the sound effects: a sound
  effect is a \<^verbatim>\<open>Howl\<close> of its own that no handler keeps a reference to.
\<close>

subsection \<open>Asset configuration\<close>

text \<open>
  \<^verbatim>\<open>ASSETS.bgm\<close> is an object literal, so \<^verbatim>\<open>ASSETS.bgm[category]\<close> finds the three
  keys written in it and, for any other name, what the literal inherits from
  \<^verbatim>\<open>Object.prototype\<close>: eleven functions and the accessor \<^verbatim>\<open>__proto__\<close>, which gives the
  prototype object itself. \<open>None\<close> is \<^verbatim>\<open>undefined\<close>. A function has a \<^verbatim>\<open>length\<close>, the
  number of its parameters; the prototype object has none. Neither can be spread.
\<close>

datatype js_value = JArray "string list" | JFunction nat | JObject

datatype js_error = TypeError

definition js_length :: "js_value \<Rightarrow> nat option" where
  "js_length v = (case v of JArray xs \<Rightarrow> Some (length xs) | JFunction n \<Rightarrow> Some n | JObject \<Rightarrow> None)"

text \<open>\<^verbatim>\<open>[...array]\<close>: the elements of an array, a \<^verbatim>\<open>TypeError\<close> for a value that is not iterable.\<close>

definition spread :: "js_value \<Rightarrow> js_error + string list" where
  "spread v = (case v of JArray xs \<Rightarrow> Inr xs | JFunction n \<Rightarrow> Inl TypeError | JObject \<Rightarrow> Inl TypeError)"

definition Object_prototype :: "string \<Rightarrow> js_value option" where
  "Object_prototype name =
     (if name = ''constructor'' then Some (JFunction 1)
      else if name = ''hasOwnProperty'' then Some (JFunction 1)
      else if name = ''isPrototypeOf'' then Some (JFunction 1)
      else if name = ''propertyIsEnumerable'' then Some (JFunction 1)
      else if name = ''toString'' then Some (JFunction 0)
      else if name = ''toLocaleString'' then Some (JFunction 0)
      else if name = ''valueOf'' then Some (JFunction 0)
      else if name = ''__defineGetter__'' then Some (JFunction 2)
      else if name = ''__defineSetter__'' then Some (JFunction 2)
      else if name = ''__lookupGetter__'' then Some (JFunction 1)
      else if name = ''__lookupSetter__'' then Some (JFunction 1)
      else if name = ''__proto__'' then Some JObject
      else None)"

definition ASSETS_bgm :: "string \<Rightarrow> js_value option" where
  "ASSETS_bgm category =
     (if category = ''battle''
      then Some (JArray [''/assets/battle1.mp3'', ''/assets/battle2.mp3''])
      else if category = ''thrill'' then Some (JArray [''/assets/thrill_theme.mp3''])
      else if category = ''serene''
      then Some (JArray [''/assets/rain.mp3'', ''/assets/wind.mp3''])
      else Object_prototype category)"

subsection \<open>Fisher-Yates shuffle\<close>

text \<open>
  \<^verbatim>\<open>Math.random()\<close> is the only input besides the array. The random source is the
  sequence of its results, \<open>rnd c\<close> being the result of call number \<open>c\<close>; a result is a
  number \<open>r\<close> with \<open>0 \<le> r < 1\<close>, and \<^verbatim>\<open>Math.floor(r * (i + 1))\<close> is computed exactly.
\<close>

definition random_index :: "rat \<Rightarrow> nat \<Rightarrow> nat" where
  "random_index r i = nat \<lfloor>r * (of_nat i + 1)\<rfloor>"

definition unit_draws :: "(nat \<Rightarrow> rat) \<Rightarrow> bool" where
  "unit_draws rnd = (\<forall>c. 0 \<le> rnd c \<and> rnd c < 1)"

text \<open>\<^verbatim>\<open>[newArr[i], newArr[j]] = [newArr[j], newArr[i]]\<close>: both reads, then both writes.\<close>

definition swap_elems :: "nat \<Rightarrow> nat \<Rightarrow> 'a list \<Rightarrow> 'a list" where
  "swap_elems i j xs = (let a = xs ! j; b = xs ! i in (xs[i := a])[j := b])"

text \<open>
  Arrays are objects: the store maps an address (an index of the list) to the contents
  of the array that lives there. \<^verbatim>\<open>[...array]\<close> allocates a new array at the next free
  address, and the loop writes through \<^verbatim>\<open>newArr\<close> only.
\<close>

type_synonym 'a store = "'a list list"

definition spread_copy :: "nat \<Rightarrow> 'a store \<Rightarrow> nat \<times> 'a store" where
  "spread_copy array st = (length st, st @ [st ! array])"

fun shuffle_loop :: "(nat \<Rightarrow> rat) \<Rightarrow> nat \<Rightarrow> nat \<Rightarrow> nat \<Rightarrow> 'a store \<Rightarrow> 'a store" where
  "shuffle_loop rnd c newArr i st =
     (if 0 < i then
        (let j = random_index (rnd c) i;
             st' = st[newArr := swap_elems i j (st ! newArr)]
         in shuffle_loop rnd (c + 1) newArr (i - 1) st')
      else st)"

definition shuffleArray_store :: "(nat \<Rightarrow> rat) \<Rightarrow> nat \<Rightarrow> 'a store \<Rightarrow> nat \<times> 'a store" where
  "shuffleArray_store rnd array st =
     (let (newArr, st1) = spread_copy array st;
          st2 = shuffle_loop rnd 0 newArr (length (st1 ! newArr) - 1) st1
      in (newArr, st2))"

text \<open>
  The same function on values, for the callers that own the only reference to the
  result: the loop runs on the copy and the copy is returned. On the empty array
  \<^verbatim>\<open>newArr.length - 1\<close> is \<open>-1\<close> and the loop body never runs, as with the truncated
  subtraction here.
\<close>

fun shuffle_steps :: "(nat \<Rightarrow> rat) \<Rightarrow> nat \<Rightarrow> nat \<Rightarrow> 'a list \<Rightarrow> 'a list" where
  "shuffle_steps rnd c i newArr =
     (if 0 < i then
        shuffle_steps rnd (c + 1) (i - 1) (swap_elems i (random_index (rnd c) i) newArr)
      else newArr)"

definition shuffleArray :: "(nat \<Rightarrow> rat) \<Rightarrow> 'a list \<Rightarrow> 'a list" where
  "shuffleArray rnd array = shuffle_steps rnd 0 (length array - 1) array"

subsection \<open>Howler sound objects\<close>

text \<open>
  Howler is an external library. A \<^verbatim>\<open>Howl\<close> is modelled by what the component can do to
  it and learn from it: its source, its current volume, the fade in flight (from, to,
  milliseconds), whether it is playing, whether it was unloaded, and the listeners
  given to it. A listener is a closure; the datatype lists the closures the component
  creates, with the values each one captures. The options \<^verbatim>\<open>html5\<close> and \<^verbatim>\<open>format\<close>
  have no part in what follows and are left out. Time is not measured: the end of a
  sound, the end of a fade and the firing of a timer are events that may arrive in any
  order.

  Howler does not call a listener at the moment it emits an event: it hands each
  registered listener to \<^verbatim>\<open>setTimeout(fn, 0)\<close>. A listener that was registered when the
  event was emitted is therefore called in a later task, also when \<^verbatim>\<open>off\<close> or \<^verbatim>\<open>unload\<close>
  has removed it in between. The state keeps the calls that are waiting.
\<close>

datatype callback =
    NextTrack "string option" string
      \<comment> \<open>\<^verbatim>\<open>onend\<close> of a music track: the render's \<^verbatim>\<open>currentBgmCategory\<close> and \<^verbatim>\<open>category\<close>\<close>
  | SetSpeaking bool
      \<comment> \<open>\<^verbatim>\<open>() => setIsSpeaking(b)\<close> of the narrator\<close>

record howl =
  src :: "string option"
  volume :: rat
  fade :: "(rat \<times> rat \<times> nat) option"
  playing :: bool
  unloaded :: bool
  onend :: "callback option"
  onplay :: "callback option"

subsection \<open>Component state\<close>

record state =
  apiKey :: string
  currentBgmCategory :: "string option"
  narratorText :: string
  isSpeaking :: bool
  isLoadingTTS :: bool
  bgmRef :: "nat option"
  narratorRef :: "nat option"
  queueRef :: "string list"
  queueIndexRef :: nat
  sounds :: "howl list"
    \<comment> \<open>every \<^verbatim>\<open>Howl\<close> created so far; a reference is an index of this list\<close>
  timers :: "(nat \<times> nat) list"
    \<comment> \<open>pending \<^verbatim>\<open>setTimeout\<close> callbacks of \<^verbatim>\<open>stopBgm\<close>: delay and the sound to release\<close>
  pending :: "callback list"
    \<comment> \<open>listener calls that Howler has handed to \<^verbatim>\<open>setTimeout(fn, 0)\<close>\<close>
  uncaught :: "js_error list"
    \<comment> \<open>exceptions that left a handler\<close>
  alerts :: "string list"
    \<comment> \<open>messages shown with \<^verbatim>\<open>alert\<close>\<close>
  requests :: "(string \<times> string) list"
    \<comment> \<open>\<^verbatim>\<open>fetch\<close> calls to the provider: key and text\<close>
  localStorage :: string
    \<comment> \<open>the item \<^verbatim>\<open>GOOGLE_API_KEY\<close>\<close>

definition initial_state :: "string \<Rightarrow> state" where
  "initial_state stored =
     \<lparr>apiKey = stored, currentBgmCategory = None, narratorText = [], isSpeaking = False,
      isLoadingTTS = False, bgmRef = None, narratorRef = None, queueRef = [],
      queueIndexRef = 0, sounds = [], timers = [], pending = [], uncaught = [],
      alerts = [], requests = [], localStorage = stored\<rparr>"

definition map_sound :: "(howl \<Rightarrow> howl) \<Rightarrow> nat \<Rightarrow> state \<Rightarrow> state" where
  "map_sound f sid s = s\<lparr>sounds := (sounds s)[sid := f (sounds s ! sid)]\<rparr>"

definition new_Howl :: "howl \<Rightarrow> state \<Rightarrow> nat \<times> state" where
  "new_Howl h s = (length (sounds s), s\<lparr>sounds := sounds s @ [h]\<rparr>)"

definition howl_play :: "nat \<Rightarrow> state \<Rightarrow> state" where
  "howl_play = map_sound (\<lambda>h. h\<lparr>playing := True\<rparr>)"

definition howl_fade :: "nat \<Rightarrow> rat \<Rightarrow> rat \<Rightarrow> nat \<Rightarrow> state \<Rightarrow> state" where
  "howl_fade sid from to len = map_sound (\<lambda>h. h\<lparr>volume := from, fade := Some (from, to, len)\<rparr>) sid"

definition howl_off_end :: "nat \<Rightarrow> state \<Rightarrow> state" where
  "howl_off_end = map_sound (\<lambda>h. h\<lparr>onend := None\<rparr>)"

definition howl_stop :: "nat \<Rightarrow> state \<Rightarrow> state" where
  "howl_stop = map_sound (\<lambda>h. h\<lparr>playing := False, fade := None\<rparr>)"

definition howl_unload :: "nat \<Rightarrow> state \<Rightarrow> state" where
  "howl_unload =
     map_sound (\<lambda>h. h\<lparr>playing := False, fade := None, unloaded := True,
                       onend := None, onplay := None\<rparr>)"

definition howl_volume :: "nat \<Rightarrow> state \<Rightarrow> rat" where
  "howl_volume sid s = volume (sounds s ! sid)"

text \<open>The volume a sound is heading to: the end of its fade, or its volume when none runs.\<close>

definition target_volume :: "howl \<Rightarrow> rat" where
  "target_volume h = (case fade h of Some (from, to, len) \<Rightarrow> to | None \<Rightarrow> volume h)"

subsection \<open>Background music\<close>

definition stopBgm :: "state \<Rightarrow> state" where
  "stopBgm s =
     (case bgmRef s of
        None \<Rightarrow> s
      | Some b \<Rightarrow>
          (let s1 = howl_off_end b s;
               s2 = howl_fade b (howl_volume b s1) 0 1000 s1;
               oldSound = b;
               s3 = s2\<lparr>timers := timers s2 @ [(1000, oldSound)]\<rparr>
           in s3\<lparr>bgmRef := None\<rparr>))"

text \<open>
  \<^verbatim>\<open>currentBgmCategory && currentBgmCategory !== category\<close>, on the value the closure
  captured: \<^verbatim>\<open>null\<close> and the empty string are falsy.
\<close>

definition superseded :: "string option \<Rightarrow> string \<Rightarrow> bool" where
  "superseded cur category =
     (case cur of None \<Rightarrow> False | Some c \<Rightarrow> c \<noteq> [] \<and> c \<noteq> category)"

definition playTrackInQueue :: "string option \<Rightarrow> string \<Rightarrow> state \<Rightarrow> state" where
  "playTrackInQueue cur category s =
     (if superseded cur category then s
      else
        (let currentTrackUrl =
               (if queueIndexRef s < length (queueRef s)
                then Some (queueRef s ! queueIndexRef s) else None);
             (sound, s1) =
               new_Howl \<lparr>src = currentTrackUrl, volume = 0, fade = None, playing = False,
                         unloaded = False, onend = Some (NextTrack cur category),
                         onplay = None\<rparr> s;
             s2 = howl_play sound s1;
             s3 = howl_fade sound 0 1 2000 s2
         in s3\<lparr>bgmRef := Some sound\<rparr>))"

text \<open>The \<^verbatim>\<open>onend\<close> closure of a music track.\<close>

definition track_onend :: "string option \<Rightarrow> string \<Rightarrow> state \<Rightarrow> state" where
  "track_onend cur category s =
     (let s1 = s\<lparr>queueIndexRef := queueIndexRef s + 1\<rparr>;
          s2 = (if queueIndexRef s1 \<ge> length (queueRef s1)
                then s1\<lparr>queueIndexRef := 0\<rparr> else s1)
      in playTrackInQueue cur category s2)"

text \<open>
  The result is the exception that leaves the function, if any, and the state at that
  moment. The asset table is an argument; the events below give it \<open>ASSETS_bgm\<close>.
\<close>

definition startPlaylist ::
  "(string \<Rightarrow> js_value option) \<Rightarrow> string option \<Rightarrow> string \<Rightarrow> (nat \<Rightarrow> rat) \<Rightarrow> state
     \<Rightarrow> js_error option \<times> state" where
  "startPlaylist bgm cur category rnd s =
     (let s1 = stopBgm s in
      case bgm category of
        None \<Rightarrow> (None, s1)
      | Some tracks \<Rightarrow>
          if js_length tracks = Some 0 then (None, s1)
          else
            (let s2 = s1\<lparr>currentBgmCategory := Some category\<rparr> in
             case spread tracks of
               Inl err \<Rightarrow> (Some err, s2)
             | Inr array \<Rightarrow>
                 (let s3 = s2\<lparr>queueRef := shuffleArray rnd array\<rparr>;
                      s4 = s3\<lparr>queueIndexRef := 0\<rparr>
                  in (None, playTrackInQueue cur category s4))))"

definition handleStopClick :: "state \<Rightarrow> state" where
  "handleStopClick s = (stopBgm s)\<lparr>currentBgmCategory := None\<rparr>"

text \<open>The callback that \<^verbatim>\<open>stopBgm\<close> gives to \<^verbatim>\<open>setTimeout\<close>.\<close>

definition release_sound :: "nat \<Rightarrow> state \<Rightarrow> state" where
  "release_sound oldSound s = howl_unload oldSound (howl_stop oldSound s)"

subsection \<open>Narrator\<close>

text \<open>
  \<^verbatim>\<open>handleNarrate\<close> is asynchronous. Its first part runs to the \<^verbatim>\<open>fetch\<close> call or to an
  early \<^verbatim>\<open>return\<close>; its second part runs when the provider has answered. The answer is
  either a rejection (the request or the parsing of its body failed, with a message)
  or the parsed body: the message of \<^verbatim>\<open>data.error\<close> when the body has one, and
  \<^verbatim>\<open>data.audioContent\<close>. The browser's decoding (\<^verbatim>\<open>atob\<close>, \<^verbatim>\<open>Blob\<close>,
  \<^verbatim>\<open>URL.createObjectURL\<close>) is given with the answer: the message of the exception
  \<^verbatim>\<open>atob\<close> throws, or the URL of the blob.
\<close>

datatype response = Rejected string | Body "string option" string

definition handleNarrate :: "state \<Rightarrow> state" where
  "handleNarrate s =
     (if apiKey s = [] then s\<lparr>alerts := alerts s @ [''Please enter a Google Cloud API Key first.'']\<rparr>
      else if narratorText s = [] then s
      else
        (let s1 = s\<lparr>isLoadingTTS := True\<rparr>
         in s1\<lparr>requests := requests s1 @ [(apiKey s, narratorText s)]\<rparr>))"

definition playAudioFromBase64 :: "string + string \<Rightarrow> state \<Rightarrow> string + state" where
  "playAudioFromBase64 decoded s =
     (case decoded of
        Inl message \<Rightarrow> Inl message
      | Inr blobUrl \<Rightarrow>
          (let s1 = (case narratorRef s of None \<Rightarrow> s | Some n \<Rightarrow> howl_unload n s);
               (narrator, s2) =
                 new_Howl \<lparr>src = Some blobUrl, volume = 1, fade = None, playing = False,
                           unloaded = False, onend = Some (SetSpeaking False),
                           onplay = Some (SetSpeaking True)\<rparr> s1;
               s3 = howl_play narrator s2
           in Inr (s3\<lparr>narratorRef := Some narrator\<rparr>)))"

definition narrate_catch :: "string \<Rightarrow> state \<Rightarrow> state" where
  "narrate_catch message s = s\<lparr>alerts := alerts s @ [''Error: '' @ message]\<rparr>"

definition handleNarrate_resume :: "response \<Rightarrow> string + string \<Rightarrow> state \<Rightarrow> state" where
  "handleNarrate_resume resp decoded s =
     (let s1 =
            (case resp of
               Rejected message \<Rightarrow> narrate_catch message s
             | Body (Some message) audioContent \<Rightarrow> narrate_catch message s
             | Body None audioContent \<Rightarrow>
                 (case playAudioFromBase64 decoded s of
                    Inl message \<Rightarrow> narrate_catch message s
                  | Inr s' \<Rightarrow> s'))
      in s1\<lparr>isLoadingTTS := False\<rparr>)"

definition saveKey :: "string \<Rightarrow> state \<Rightarrow> state" where
  "saveKey val s = s\<lparr>apiKey := val, localStorage := val\<rparr>"

subsection \<open>Ducking\<close>

text \<open>The body of the effect whose dependencies are \<^verbatim>\<open>[isSpeaking, currentBgmCategory]\<close>.\<close>

definition ducking_effect :: "state \<Rightarrow> state" where
  "ducking_effect s =
     (case bgmRef s of
        None \<Rightarrow> s
      | Some b \<Rightarrow>
          (let targetVol = (if isSpeaking s then 1 / 5 else 1)
           in howl_fade b (howl_volume b s) targetVol 500 s))"

subsection \<open>Events\<close>

text \<open>
  One event is one task of the event loop: a click, an edit, an answer of the provider,
  a timer, or a notification of a sound. React renders after the task; the effect runs
  after the render when one of its dependencies changed. A click runs the handler of
  the latest render, which captured the state as it is when the click arrives.
\<close>

datatype event =
    StartPlaylist string "nat \<Rightarrow> rat"
  | StopClick
  | SaveKey string
  | SetNarratorText string
  | NarrateClick
  | ProviderAnswer response "string + string"
  | SoundPlay nat
  | SoundEnd nat
  | ListenerCall nat
  | FadeEnd nat
  | Timeout nat

definition run_callback :: "callback \<Rightarrow> state \<Rightarrow> state" where
  "run_callback cb s =
     (case cb of
        NextTrack cur category \<Rightarrow> track_onend cur category s
      | SetSpeaking b \<Rightarrow> s\<lparr>isSpeaking := b\<rparr>)"

text \<open>
  A sound that is playing reaches its end: Howler marks it as no longer playing and
  emits \<^verbatim>\<open>end\<close>, which leaves a call of the \<^verbatim>\<open>end\<close> listener waiting if one is
  registered. When playback begins Howler emits \<^verbatim>\<open>play\<close> in the same way. A waiting call
  runs as a task of its own.
\<close>

definition mark_ended :: "nat \<Rightarrow> state \<Rightarrow> state" where
  "mark_ended = map_sound (\<lambda>h. h\<lparr>playing := False, fade := None\<rparr>)"

definition emit :: "callback option \<Rightarrow> state \<Rightarrow> state" where
  "emit listener s =
     (case listener of None \<Rightarrow> s | Some cb \<Rightarrow> s\<lparr>pending := pending s @ [cb]\<rparr>)"

definition sound_end :: "nat \<Rightarrow> state \<Rightarrow> state" where
  "sound_end sid s =
     (if sid < length (sounds s) \<and> playing (sounds s ! sid)
      then emit (onend (sounds s ! sid)) (mark_ended sid s)
      else s)"

definition sound_play :: "nat \<Rightarrow> state \<Rightarrow> state" where
  "sound_play sid s =
     (if sid < length (sounds s) \<and> playing (sounds s ! sid)
      then emit (onplay (sounds s ! sid)) s
      else s)"

definition listener_call :: "nat \<Rightarrow> state \<Rightarrow> state" where
  "listener_call k s =
     (if k < length (pending s) then
        run_callback (pending s ! k)
          (s\<lparr>pending := take k (pending s) @ drop (Suc k) (pending s)\<rparr>)
      else s)"

definition fade_end :: "nat \<Rightarrow> state \<Rightarrow> state" where
  "fade_end sid s =
     (if sid < length (sounds s) then
        map_sound (\<lambda>h. h\<lparr>volume := target_volume h, fade := None\<rparr>) sid s
      else s)"

definition fire_timer :: "nat \<Rightarrow> state \<Rightarrow> state" where
  "fire_timer k s =
     (if k < length (timers s) then
        release_sound (snd (timers s ! k))
          (s\<lparr>timers := take k (timers s) @ drop (Suc k) (timers s)\<rparr>)
      else s)"

definition handle :: "event \<Rightarrow> state \<Rightarrow> state" where
  "handle e s =
     (case e of
        StartPlaylist category rnd \<Rightarrow>
          (case startPlaylist ASSETS_bgm (currentBgmCategory s) category rnd s of
             (None, s') \<Rightarrow> s'
           | (Some err, s') \<Rightarrow> s'\<lparr>uncaught := uncaught s' @ [err]\<rparr>)
      | StopClick \<Rightarrow> handleStopClick s
      | SaveKey val \<Rightarrow> saveKey val s
      | SetNarratorText val \<Rightarrow> s\<lparr>narratorText := val\<rparr>
      | NarrateClick \<Rightarrow> (if isLoadingTTS s \<or> isSpeaking s then s else handleNarrate s)
      | ProviderAnswer resp decoded \<Rightarrow> handleNarrate_resume resp decoded s
      | SoundPlay sid \<Rightarrow> sound_play sid s
      | SoundEnd sid \<Rightarrow> sound_end sid s
      | ListenerCall k \<Rightarrow> listener_call k s
      | FadeEnd sid \<Rightarrow> fade_end sid s
      | Timeout k \<Rightarrow> fire_timer k s)"

text \<open>The render after a task that took the state from \<open>s\<close> to \<open>s'\<close>.\<close>

definition render_after :: "state \<Rightarrow> state \<Rightarrow> state" where
  "render_after s s' =
     (if isSpeaking s' = isSpeaking s \<and> currentBgmCategory s' = currentBgmCategory s
      then s' else ducking_effect s')"

definition step :: "event \<Rightarrow> state \<Rightarrow> state" where
  "step e s = render_after s (handle e s)"

fun run :: "event list \<Rightarrow> state \<Rightarrow> state" where
  "run [] s = s"
| "run (e # es) s = run es (step e s)"

text \<open>
  The completion of the track on the active music channel, when there is one: the
  track ends and the listener call that this leaves waiting runs next.
\<close>

definition complete_active :: "state \<Rightarrow> state" where
  "complete_active s =
     (case bgmRef s of
        None \<Rightarrow> s
      | Some b \<Rightarrow>
          (let s1 = step (SoundEnd b) s
           in if length (pending s) < length (pending s1)
              then step (ListenerCall (length (pending s))) s1 else s1))"

text \<open>
  \<^verbatim>\<open>setIsSpeaking(v)\<close> called from a listener of the narrator: the state cell is written
  and React renders.
\<close>

definition setIsSpeaking :: "bool \<Rightarrow> state \<Rightarrow> state" where
  "setIsSpeaking v s = render_after s (s\<lparr>isSpeaking := v\<rparr>)"

subsection \<open>Example states\<close>

text \<open>
  A random source whose every result is \<open>0\<close>, and an asset table with one more
  category, whose track list is empty. The battle playlist started from the first
  render; the same with the end of its first track emitted and the listener call
  still waiting; and that state after a click on the serene playlist, or on the stop
  button. A narration that has begun to play over the battle playlist. A key saved
  with no text entered.
\<close>

definition zero_draws :: "nat \<Rightarrow> rat" where
  "zero_draws c = 0"

definition table_with_silence :: "string \<Rightarrow> js_value option" where
  "table_with_silence category =
     (if category = ''silence'' then Some (JArray []) else ASSETS_bgm category)"

definition playing_battle :: state where
  "playing_battle = step (StartPlaylist ''battle'' zero_draws) (initial_state [])"

definition battle_track_ended :: state where
  "battle_track_ended = step (SoundEnd 0) playing_battle"

definition serene_clicked :: state where
  "serene_clicked = step (StartPlaylist ''serene'' zero_draws) battle_track_ended"

definition stopped_after_end :: state where
  "stopped_after_end = step StopClick battle_track_ended"

definition narrating_battle :: state where
  "narrating_battle =
     run [StartPlaylist ''battle'' zero_draws, SaveKey ''key'',
          SetNarratorText ''A storm gathers.'', NarrateClick,
          ProviderAnswer (Body None ''QUJD'') (Inr ''blob:narration''), SoundPlay 1,
          ListenerCall 0]
       (initial_state [])"

definition key_without_text :: state where
  "key_without_text = step (SaveKey ''key'') (initial_state [])"

section \<open>Properties of the shuffle\<close>

declare shuffle_loop.simps [simp del] shuffle_steps.simps [simp del]

lemma random_index_le:
  assumes "0 \<le> r" "r < 1"
  shows "random_index r i \<le> i"
proof -
  have "r * (of_nat i + 1) < of_nat i + 1"
    using assms by (simp add: mult_less_cancel_right1)
  hence "r * (of_nat i + 1) < of_int (int i + 1)"
    by simp
  hence "\<lfloor>r * (of_nat i + 1)\<rfloor> < int i + 1"
    by (simp only: floor_less_iff)
  thus ?thesis
    unfolding random_index_def by linarith
qed

lemma swap_elems_length [simp]: "length (swap_elems i j xs) = length xs"
  by (simp add: swap_elems_def Let_def)

lemma swap_elems_mset:
  "i < length xs \<Longrightarrow> j < length xs \<Longrightarrow> mset (swap_elems i j xs) = mset xs"
  by (simp add: swap_elems_def Let_def mset_swap)

lemma shuffle_steps_length [simp]: "length (shuffle_steps rnd c i xs) = length xs"
  by (induction rnd c i xs rule: shuffle_steps.induct)
     (subst shuffle_steps.simps, simp)

lemma shuffle_steps_mset:
  "unit_draws rnd \<Longrightarrow> i < length xs \<Longrightarrow> mset (shuffle_steps rnd c i xs) = mset xs"
proof (induction rnd c i xs rule: shuffle_steps.induct)
  case (1 rnd c i newArr)
  show ?case
  proof (cases "0 < i")
    case False
    thus ?thesis by (subst shuffle_steps.simps) simp
  next
    case True
    let ?j = "random_index (rnd c) i"
    have j: "?j \<le> i"
      using "1.prems"(1) by (simp add: unit_draws_def random_index_le)
    have "mset (shuffle_steps rnd (c + 1) (i - 1) (swap_elems i ?j newArr))
            = mset (swap_elems i ?j newArr)"
      using "1.IH" [OF True] "1.prems" True by simp
    also have "\<dots> = mset newArr"
      using j "1.prems"(2) by (simp add: swap_elems_mset)
    finally show ?thesis
      using True by (subst shuffle_steps.simps) simp
  qed
qed

lemma shuffleArray_length [simp]: "length (shuffleArray rnd xs) = length xs"
  by (simp add: shuffleArray_def)

lemma shuffleArray_mset: "unit_draws rnd \<Longrightarrow> mset (shuffleArray rnd xs) = mset xs"
proof (cases xs)
  case Nil
  thus ?thesis by (simp add: shuffleArray_def shuffle_steps.simps)
next
  case (Cons x ys)
  assume "unit_draws rnd"
  thus ?thesis
    unfolding shuffleArray_def by (rule shuffle_steps_mset) (simp add: Cons)
qed

lemma shuffle_loop_length [simp]: "length (shuffle_loop rnd c n i st) = length st"
  by (induction rnd c n i st rule: shuffle_loop.induct)
     (subst shuffle_loop.simps, simp add: Let_def)

lemma shuffle_loop_other:
  "a \<noteq> n \<Longrightarrow> shuffle_loop rnd c n i st ! a = st ! a"
  by (induction rnd c n i st rule: shuffle_loop.induct)
     (subst shuffle_loop.simps, simp add: Let_def)

lemma shuffle_loop_steps:
  "n < length st \<Longrightarrow> shuffle_loop rnd c n i st ! n = shuffle_steps rnd c i (st ! n)"
proof (induction rnd c n i st rule: shuffle_loop.induct)
  case (1 rnd c newArr i st)
  show ?case
  proof (cases "0 < i")
    case False
    thus ?thesis
      by (subst shuffle_loop.simps, subst shuffle_steps.simps) simp
  next
    case True
    thus ?thesis
      using "1.IH" [OF True refl refl] "1.prems"
      by (subst shuffle_loop.simps, subst shuffle_steps.simps) (simp add: Let_def)
  qed
qed

lemma shuffleArray_store_value:
  "array < length st \<Longrightarrow>
   snd (shuffleArray_store rnd array st) ! fst (shuffleArray_store rnd array st)
     = shuffleArray rnd (st ! array)"
  by (simp add: shuffleArray_store_def spread_copy_def shuffleArray_def Let_def
        shuffle_loop_steps nth_append)

section \<open>Sounds, listeners and the queue\<close>

subsection \<open>Updates of one sound\<close>

lemma map_sound_nth:
  "sounds (map_sound f i s) ! j =
     (if i = j \<and> i < length (sounds s) then f (sounds s ! j) else sounds s ! j)"
  by (cases "i < length (sounds s)") (auto simp: map_sound_def nth_list_update list_update_beyond)

lemma map_sound_length [simp]: "length (sounds (map_sound f i s)) = length (sounds s)"
  by (simp add: map_sound_def)

lemma map_sound_fields [simp]:
  "bgmRef (map_sound f i s) = bgmRef s"
  "narratorRef (map_sound f i s) = narratorRef s"
  "currentBgmCategory (map_sound f i s) = currentBgmCategory s"
  "isSpeaking (map_sound f i s) = isSpeaking s"
  "isLoadingTTS (map_sound f i s) = isLoadingTTS s"
  "queueRef (map_sound f i s) = queueRef s"
  "queueIndexRef (map_sound f i s) = queueIndexRef s"
  "timers (map_sound f i s) = timers s"
  "pending (map_sound f i s) = pending s"
  "uncaught (map_sound f i s) = uncaught s"
  "alerts (map_sound f i s) = alerts s"
  "requests (map_sound f i s) = requests s"
  "apiKey (map_sound f i s) = apiKey s"
  "narratorText (map_sound f i s) = narratorText s"
  "localStorage (map_sound f i s) = localStorage s"
  by (simp_all add: map_sound_def)

lemma map_sound_update [simp]:
  "map_sound f i (s\<lparr>bgmRef := b\<rparr>) = (map_sound f i s)\<lparr>bgmRef := b\<rparr>"
  "map_sound f i (s\<lparr>timers := t\<rparr>) = (map_sound f i s)\<lparr>timers := t\<rparr>"
  "map_sound f i (s\<lparr>narratorRef := n\<rparr>) = (map_sound f i s)\<lparr>narratorRef := n\<rparr>"
  by (simp_all add: map_sound_def)

lemmas howl_defs = new_Howl_def howl_play_def howl_fade_def howl_off_end_def
  howl_stop_def howl_unload_def howl_volume_def mark_ended_def

lemma emit_fields [simp]:
  "sounds (emit l s) = sounds s"
  "bgmRef (emit l s) = bgmRef s"
  "currentBgmCategory (emit l s) = currentBgmCategory s"
  "isSpeaking (emit l s) = isSpeaking s"
  "queueRef (emit l s) = queueRef s"
  "queueIndexRef (emit l s) = queueIndexRef s"
  "timers (emit l s) = timers s"
  by (simp_all add: emit_def split: option.splits)

subsection \<open>A sound without an end listener never gets one\<close>

lemma stopBgm_silenced:
  "sid < length (sounds s) \<Longrightarrow> onend (sounds s ! sid) = None \<Longrightarrow>
   length (sounds (stopBgm s)) = length (sounds s) \<and> onend (sounds (stopBgm s) ! sid) = None"
  by (auto simp: stopBgm_def howl_defs Let_def map_sound_nth split: option.splits)

lemma playTrackInQueue_silenced:
  "sid < length (sounds s) \<Longrightarrow> onend (sounds s ! sid) = None \<Longrightarrow>
   sid < length (sounds (playTrackInQueue cur c s))
   \<and> onend (sounds (playTrackInQueue cur c s) ! sid) = None"
  by (auto simp: playTrackInQueue_def howl_defs Let_def map_sound_nth nth_append
        split: option.splits)

lemma run_callback_silenced:
  "sid < length (sounds t) \<Longrightarrow> onend (sounds t ! sid) = None \<Longrightarrow>
   sid < length (sounds (run_callback cb t)) \<and> onend (sounds (run_callback cb t) ! sid) = None"
  using playTrackInQueue_silenced [of sid]
  by (auto simp: run_callback_def track_onend_def Let_def split: callback.splits)

lemma startPlaylist_silenced:
  assumes "sid < length (sounds s)" "onend (sounds s ! sid) = None"
  shows "sid < length (sounds (snd (startPlaylist bgm cur c rnd s)))
       \<and> onend (sounds (snd (startPlaylist bgm cur c rnd s)) ! sid) = None"
proof -
  have q: "sid < length (sounds (stopBgm s))" "onend (sounds (stopBgm s) ! sid) = None"
    using stopBgm_silenced [OF assms] assms(1) by simp_all
  have q': "sid < length (sounds (stopBgm s\<lparr>currentBgmCategory := Some c, queueRef := q, queueIndexRef := 0\<rparr>))"
    "onend (sounds (stopBgm s\<lparr>currentBgmCategory := Some c, queueRef := q, queueIndexRef := 0\<rparr>) ! sid) = None" for q
    using q by simp_all
  show ?thesis
    using q playTrackInQueue_silenced [OF q']
    by (simp add: startPlaylist_def Let_def split: option.splits sum.splits)
qed

lemma handle_silenced:
  assumes a: "sid < length (sounds s)" "onend (sounds s ! sid) = None"
  shows "sid < length (sounds (handle e s)) \<and> onend (sounds (handle e s) ! sid) = None"
proof (cases e)
  case (StartPlaylist category rnd)
  show ?thesis
    using startPlaylist_silenced [OF a, of ASSETS_bgm "currentBgmCategory s" category rnd]
    by (auto simp: StartPlaylist handle_def split: prod.splits option.splits)
next
  case StopClick
  show ?thesis
    using stopBgm_silenced [OF a] a by (simp add: StopClick handle_def handleStopClick_def)
next
  case (SoundEnd n)
  show ?thesis
    using a by (auto simp: SoundEnd handle_def sound_end_def howl_defs map_sound_nth)
next
  case (SoundPlay n)
  show ?thesis
    using a by (auto simp: SoundPlay handle_def sound_play_def)
next
  case (ListenerCall k)
  have "sid < length (sounds (run_callback cb (s\<lparr>pending := p\<rparr>)))
      \<and> onend (sounds (run_callback cb (s\<lparr>pending := p\<rparr>)) ! sid) = None" for cb p
    using a by (intro run_callback_silenced) simp_all
  thus ?thesis
    using a by (simp add: ListenerCall handle_def listener_call_def)
qed (use a in \<open>auto simp: handle_def saveKey_def handleNarrate_def handleNarrate_resume_def
      narrate_catch_def playAudioFromBase64_def fade_end_def fire_timer_def release_sound_def
      howl_defs Let_def map_sound_nth nth_append
      split: option.splits sum.splits response.splits prod.splits\<close>)

lemma render_after_silenced:
  "sid < length (sounds s') \<and> onend (sounds s' ! sid) = None \<Longrightarrow>
   sid < length (sounds (render_after s s')) \<and> onend (sounds (render_after s s') ! sid) = None"
  by (auto simp: render_after_def ducking_effect_def howl_defs map_sound_nth split: option.splits)

lemma step_silenced:
  "sid < length (sounds s) \<Longrightarrow> onend (sounds s ! sid) = None \<Longrightarrow>
   sid < length (sounds (step e s)) \<and> onend (sounds (step e s) ! sid) = None"
  unfolding step_def by (intro render_after_silenced handle_silenced)

lemma run_silenced:
  "sid < length (sounds s) \<Longrightarrow> onend (sounds s ! sid) = None \<Longrightarrow>
   sid < length (sounds (run es s)) \<and> onend (sounds (run es s) ! sid) = None"
proof (induction es arbitrary: s)
  case Nil
  thus ?case by simp
next
  case (Cons e es)
  show ?case
    using Cons.IH [of "step e s"] step_silenced [OF Cons.prems] by simp
qed

text \<open>The end of such a sound leaves no listener call waiting.\<close>

lemma sound_end_silenced:
  assumes "onend (sounds t ! sid) = None"
  shows "step (SoundEnd sid) t =
           (if sid < length (sounds t) \<and> playing (sounds t ! sid) then mark_ended sid t else t)"
  using assms
  by (simp add: step_def handle_def sound_end_def render_after_def mark_ended_def emit_def)

subsection \<open>Stopping the music\<close>

lemma stopBgm_bgmRef [simp]: "bgmRef (stopBgm s) = None"
  by (simp add: stopBgm_def howl_defs Let_def split: option.splits)

lemma stopBgm_fields [simp]:
  "queueRef (stopBgm s) = queueRef s"
  "queueIndexRef (stopBgm s) = queueIndexRef s"
  "currentBgmCategory (stopBgm s) = currentBgmCategory s"
  "isSpeaking (stopBgm s) = isSpeaking s"
  "alerts (stopBgm s) = alerts s"
  "uncaught (stopBgm s) = uncaught s"
  "pending (stopBgm s) = pending s"
  "length (sounds (stopBgm s)) = length (sounds s)"
  by (simp_all add: stopBgm_def howl_defs Let_def split: option.splits)

lemma stopBgm_active:
  assumes "bgmRef s = Some b" "b < length (sounds s)"
  shows "timers (stopBgm s) = timers s @ [(1000, b)]"
    and "sounds (stopBgm s) ! b
           = (sounds s ! b)\<lparr>onend := None, fade := Some (volume (sounds s ! b), 0, 1000)\<rparr>"
  using assms
  by (simp_all add: stopBgm_def howl_defs Let_def map_sound_nth)

lemma stopBgm_idle: "bgmRef s = None \<Longrightarrow> stopBgm s = s"
  by (simp add: stopBgm_def)

text \<open>
  A release that \<^verbatim>\<open>stopBgm\<close> has scheduled stays scheduled until its timer fires, and
  the timer stops and unloads the sound.
\<close>

lemma handle_timer_kept:
  assumes "t \<in> set (timers s)" "\<forall>k. e \<noteq> Timeout k"
  shows "t \<in> set (timers (handle e s))"
proof (cases e)
  case (StartPlaylist category rnd)
  have "t \<in> set (timers (stopBgm s))"
    using assms(1) by (auto simp: stopBgm_def howl_defs Let_def split: option.splits)
  thus ?thesis
    by (auto simp: StartPlaylist handle_def startPlaylist_def playTrackInQueue_def howl_defs
          Let_def split: option.splits sum.splits)
next
  case StopClick
  thus ?thesis
    using assms(1)
    by (auto simp: handle_def handleStopClick_def stopBgm_def howl_defs Let_def
          split: option.splits)
next
  case (ListenerCall k)
  thus ?thesis
    using assms(1)
    by (auto simp: handle_def listener_call_def run_callback_def track_onend_def
          playTrackInQueue_def howl_defs Let_def split: callback.splits)
next
  case (Timeout k)
  thus ?thesis using assms(2) by simp
qed (use assms(1) in \<open>auto simp: handle_def saveKey_def handleNarrate_def
      handleNarrate_resume_def narrate_catch_def playAudioFromBase64_def fade_end_def
      sound_end_def sound_play_def howl_defs Let_def
      split: option.splits sum.splits response.splits prod.splits\<close>)

lemma render_after_timers [simp]: "timers (render_after s s') = timers s'"
  by (simp add: render_after_def ducking_effect_def howl_defs split: option.splits)

lemma step_timer_kept:
  "t \<in> set (timers s) \<Longrightarrow> \<forall>k. e \<noteq> Timeout k \<Longrightarrow> t \<in> set (timers (step e s))"
  by (simp add: step_def handle_timer_kept)

lemma timer_releases:
  assumes "k < length (timers s)" "timers s ! k = (d, b)" "b < length (sounds s)"
  shows "\<not> playing (sounds (step (Timeout k) s) ! b) \<and> unloaded (sounds (step (Timeout k) s) ! b)"
  using assms
  by (simp add: step_def handle_def fire_timer_def release_sound_def render_after_def
        howl_defs map_sound_nth)

lemma run_timer_kept:
  "t \<in> set (timers s) \<Longrightarrow> \<forall>e \<in> set es. \<forall>k. e \<noteq> Timeout k \<Longrightarrow> t \<in> set (timers (run es s))"
proof (induction es arbitrary: s)
  case Nil
  thus ?case by simp
next
  case (Cons e es)
  have "t \<in> set (timers (step e s))"
    using Cons.prems by (intro step_timer_kept) simp_all
  thus ?case
    using Cons.IH [of "step e s"] Cons.prems(2) by simp
qed

text \<open>What \<^verbatim>\<open>stopBgm\<close> does to an active channel holds through every later event.\<close>

lemma stopBgm_lasting:
  assumes "bgmRef s = Some b" "b < length (sounds s)"
  shows "onend (sounds (run es (stopBgm s)) ! b) = None"
    and "b < length (sounds (run es (stopBgm s)))"
    and "\<forall>e \<in> set es. \<forall>k. e \<noteq> Timeout k \<Longrightarrow> (1000, b) \<in> set (timers (run es (stopBgm s)))"
proof -
  have q: "b < length (sounds (stopBgm s))" "onend (sounds (stopBgm s) ! b) = None"
    using assms by (simp_all add: stopBgm_active)
  show "onend (sounds (run es (stopBgm s)) ! b) = None"
    and "b < length (sounds (run es (stopBgm s)))"
    using run_silenced [OF q] by simp_all
  have t: "(1000, b) \<in> set (timers (stopBgm s))"
    using assms by (simp add: stopBgm_active)
  show "(1000, b) \<in> set (timers (run es (stopBgm s)))"
    if "\<forall>e \<in> set es. \<forall>k. e \<noteq> Timeout k"
    using t that by (rule run_timer_kept)
qed

subsection \<open>Rendering\<close>

lemma render_after_bgmRef [simp]: "bgmRef (render_after s s') = bgmRef s'"
  by (simp add: render_after_def ducking_effect_def howl_defs split: option.splits)

lemma render_after_length [simp]: "length (sounds (render_after s s')) = length (sounds s')"
  by (simp add: render_after_def ducking_effect_def howl_defs split: option.splits)

lemma render_after_queue [simp]:
  "queueRef (render_after s s') = queueRef s'"
  "queueIndexRef (render_after s s') = queueIndexRef s'"
  "pending (render_after s s') = pending s'"
  by (simp_all add: render_after_def ducking_effect_def howl_defs split: option.splits)

lemma render_after_listener [simp]:
  "playing (sounds (render_after s s') ! i) = playing (sounds s' ! i)"
  "onend (sounds (render_after s s') ! i) = onend (sounds s' ! i)"
  by (simp_all add: render_after_def ducking_effect_def howl_defs map_sound_nth
        split: option.splits)

subsection \<open>Starting a playlist and completing its tracks\<close>

lemma startPlaylist_queue:
  assumes "bgm category = Some (JArray tracks)" "tracks \<noteq> []"
  shows "fst (startPlaylist bgm cur category rnd s) = None"
    and "queueRef (snd (startPlaylist bgm cur category rnd s)) = shuffleArray rnd tracks"
    and "queueIndexRef (snd (startPlaylist bgm cur category rnd s)) = 0"
    and "superseded cur category \<Longrightarrow> bgmRef (snd (startPlaylist bgm cur category rnd s)) = None"
  using assms
  by (simp_all add: startPlaylist_def js_length_def spread_def playTrackInQueue_def howl_defs
        Let_def)

lemma startPlaylist_active:
  assumes "bgm category = Some (JArray tracks)" "tracks \<noteq> []" "\<not> superseded cur category"
  shows "bgmRef (snd (startPlaylist bgm cur category rnd s)) = Some (length (sounds s))"
    and "length (sounds (snd (startPlaylist bgm cur category rnd s))) = Suc (length (sounds s))"
    and "sounds (snd (startPlaylist bgm cur category rnd s)) ! length (sounds s)
           = \<lparr>src = Some (shuffleArray rnd tracks ! 0), volume = 0, fade = Some (0, 1, 2000),
              playing = True, unloaded = False, onend = Some (NextTrack cur category),
              onplay = None\<rparr>"
    and "currentBgmCategory (snd (startPlaylist bgm cur category rnd s)) = Some category"
proof -
  have ne: "shuffleArray rnd tracks \<noteq> []"
    using assms(2) shuffleArray_length [of rnd tracks] by (metis length_0_conv)
  show "bgmRef (snd (startPlaylist bgm cur category rnd s)) = Some (length (sounds s))"
    and "length (sounds (snd (startPlaylist bgm cur category rnd s))) = Suc (length (sounds s))"
    and "sounds (snd (startPlaylist bgm cur category rnd s)) ! length (sounds s)
           = \<lparr>src = Some (shuffleArray rnd tracks ! 0), volume = 0, fade = Some (0, 1, 2000),
              playing = True, unloaded = False, onend = Some (NextTrack cur category),
              onplay = None\<rparr>"
    and "currentBgmCategory (snd (startPlaylist bgm cur category rnd s)) = Some category"
    using assms ne
    by (simp_all add: startPlaylist_def js_length_def spread_def playTrackInQueue_def howl_defs
          Let_def map_sound_nth nth_append)
qed

lemma step_StartPlaylist:
  assumes "ASSETS_bgm category = Some (JArray tracks)" "tracks \<noteq> []"
  shows "step (StartPlaylist category rnd) s
           = render_after s (snd (startPlaylist ASSETS_bgm (currentBgmCategory s) category rnd s))"
proof -
  obtain err s' where p: "startPlaylist ASSETS_bgm (currentBgmCategory s) category rnd s = (err, s')"
    by (cases "startPlaylist ASSETS_bgm (currentBgmCategory s) category rnd s")
  have "err = None"
    using startPlaylist_queue(1) [of ASSETS_bgm category tracks "currentBgmCategory s" rnd s]
      assms p by simp
  thus ?thesis
    by (simp add: step_def handle_def p)
qed

lemma track_onend_queue:
  "queueRef (track_onend cur c s) = queueRef s
 \<and> queueIndexRef (track_onend cur c s)
     = (if queueIndexRef s + 1 \<ge> length (queueRef s) then 0 else queueIndexRef s + 1)"
  by (simp add: track_onend_def playTrackInQueue_def howl_defs Let_def)

lemma complete_active_advance:
  assumes "bgmRef s = Some b" "b < length (sounds s)" "playing (sounds s ! b)"
    "onend (sounds s ! b) = Some (NextTrack cur c)" "\<not> superseded cur c"
  shows "bgmRef (complete_active s) = Some (length (sounds s))"
    and "length (sounds (complete_active s)) = Suc (length (sounds s))"
    and "playing (sounds (complete_active s) ! length (sounds s))"
    and "onend (sounds (complete_active s) ! length (sounds s)) = Some (NextTrack cur c)"
    and "queueRef (complete_active s) = queueRef s"
    and "queueIndexRef (complete_active s)
           = (if queueIndexRef s + 1 \<ge> length (queueRef s) then 0 else queueIndexRef s + 1)"
    and "pending (complete_active s) = pending s"
proof -
  have e1: "step (SoundEnd b) s = (mark_ended b s)\<lparr>pending := pending s @ [NextTrack cur c]\<rparr>"
    using assms(1-4)
    by (simp add: step_def handle_def sound_end_def emit_def render_after_def howl_defs)
  let ?s1 = "(mark_ended b s)\<lparr>pending := pending s @ [NextTrack cur c]\<rparr>"
  have m: "?s1\<lparr>pending := pending s\<rparr> = mark_ended b s"
    by (simp add: howl_defs map_sound_def)
  have h: "handle (ListenerCall (length (pending s))) ?s1 = track_onend cur c (mark_ended b s)"
    by (simp add: handle_def listener_call_def run_callback_def m)
  have f: "isSpeaking (track_onend cur c (mark_ended b s)) = isSpeaking ?s1"
    "currentBgmCategory (track_onend cur c (mark_ended b s)) = currentBgmCategory ?s1"
    by (simp_all add: track_onend_def playTrackInQueue_def howl_defs Let_def)
  have e2: "step (ListenerCall (length (pending s))) ?s1 = track_onend cur c (mark_ended b s)"
    unfolding step_def h using f by (simp add: render_after_def)
  have e: "complete_active s = track_onend cur c (mark_ended b s)"
    using assms(1) by (simp add: complete_active_def e1 e2)
  show "bgmRef (complete_active s) = Some (length (sounds s))"
    and "length (sounds (complete_active s)) = Suc (length (sounds s))"
    and "playing (sounds (complete_active s) ! length (sounds s))"
    and "onend (sounds (complete_active s) ! length (sounds s)) = Some (NextTrack cur c)"
    and "queueRef (complete_active s) = queueRef s"
    and "queueIndexRef (complete_active s)
           = (if queueIndexRef s + 1 \<ge> length (queueRef s) then 0 else queueIndexRef s + 1)"
    and "pending (complete_active s) = pending s"
    unfolding e using assms(5)
    by (simp_all add: track_onend_def playTrackInQueue_def howl_defs Let_def map_sound_nth
          nth_append)
qed

lemma complete_active_idle: "bgmRef s = None \<Longrightarrow> complete_active s = s"
  by (simp add: complete_active_def)

lemma funpow_complete_idle: "bgmRef s = None \<Longrightarrow> (complete_active ^^ n) s = s"
  by (induction n) (simp_all add: complete_active_idle)

lemma funpow_complete_active:
  assumes "bgmRef s = Some b" "b < length (sounds s)" "playing (sounds s ! b)"
    "onend (sounds s ! b) = Some (NextTrack cur c)" "\<not> superseded cur c"
    "queueIndexRef s < length (queueRef s)" "Suc b = length (sounds s)"
  shows "bgmRef ((complete_active ^^ n) s) = Some (b + n)
       \<and> length (sounds ((complete_active ^^ n) s)) = Suc (b + n)
       \<and> playing (sounds ((complete_active ^^ n) s) ! (b + n))
       \<and> onend (sounds ((complete_active ^^ n) s) ! (b + n)) = Some (NextTrack cur c)
       \<and> queueRef ((complete_active ^^ n) s) = queueRef s
       \<and> queueIndexRef ((complete_active ^^ n) s) = (queueIndexRef s + n) mod length (queueRef s)"
proof (induction n)
  case 0
  show ?case using assms by simp
next
  case (Suc n)
  let ?t = "(complete_active ^^ n) s"
  have b: "bgmRef ?t = Some (b + n)" and l: "b + n < length (sounds ?t)"
    and l': "length (sounds ?t) = Suc (b + n)"
    and p: "playing (sounds ?t ! (b + n))"
    and o: "onend (sounds ?t ! (b + n)) = Some (NextTrack cur c)"
    and q: "queueRef ?t = queueRef s"
    and i: "queueIndexRef ?t = (queueIndexRef s + n) mod length (queueRef s)"
    using Suc.IH by simp_all
  note adv = complete_active_advance [OF b l p o assms(5)]
  have k: "0 < length (queueRef s)"
    using assms(6) by (cases "queueRef s") simp_all
  have lt: "(queueIndexRef s + n) mod length (queueRef s) < length (queueRef s)"
    using k by simp
  have "queueIndexRef (complete_active ?t) = (queueIndexRef s + Suc n) mod length (queueRef s)"
    using lt by (auto simp: adv(6) q i mod_Suc)
  thus ?case
    using adv(1-5) by (simp add: l' q)
qed

subsection \<open>The narrator's listeners\<close>

lemma listener_call_speaking:
  assumes "k < length (pending s)" "pending s ! k = SetSpeaking v"
  shows "step (ListenerCall k) s
           = setIsSpeaking v (s\<lparr>pending := take k (pending s) @ drop (Suc k) (pending s)\<rparr>)"
  using assms
  by (simp add: step_def handle_def listener_call_def run_callback_def setIsSpeaking_def
        render_after_def)

section \<open>The claims\<close>

text \<open>
  Claim C1 fails on the code. The battle playlist was started from the first render
  and its first track has ended: Howler has emitted \<^verbatim>\<open>end\<close> and the call of the
  listener is waiting. A click on the serene playlist comes first. It removes the
  listener from the channel, but the call that is already waiting still runs, and the
  guard of \<^verbatim>\<open>playTrackInQueue\<close> reads the category captured when the closure was made
  (\<^verbatim>\<open>null\<close>), not the current one: the cursor of the serene queue goes from \<open>0\<close> to
  \<open>1\<close> and one more music channel is created and played.
\<close>

theorem stale_completion_advances_queue:
  "bgmRef playing_battle = Some 0
   \<and> pending battle_track_ended = [NextTrack None ''battle'']
   \<and> currentBgmCategory serene_clicked = Some ''serene''
   \<and> queueRef serene_clicked = [''/assets/wind.mp3'', ''/assets/rain.mp3'']
   \<and> queueIndexRef serene_clicked = 0
   \<and> bgmRef serene_clicked = None
   \<and> length (sounds serene_clicked) = 1
   \<and> onend (sounds serene_clicked ! 0) = None
   \<and> pending serene_clicked = [NextTrack None ''battle'']
   \<and> currentBgmCategory (step (ListenerCall 0) serene_clicked) = Some ''serene''
   \<and> queueIndexRef (step (ListenerCall 0) serene_clicked) = 1
   \<and> length (sounds (step (ListenerCall 0) serene_clicked)) = 2
   \<and> bgmRef (step (ListenerCall 0) serene_clicked) = Some 1
   \<and> src (sounds (step (ListenerCall 0) serene_clicked) ! 1) = Some ''/assets/rain.mp3''
   \<and> playing (sounds (step (ListenerCall 0) serene_clicked) ! 1)
   \<and> onend (sounds (step (ListenerCall 0) serene_clicked) ! 1)
       = Some (NextTrack None ''battle'')"
  by code_simp

text \<open>
  Claim C2, as amended. Let the lookup of the category give \<^verbatim>\<open>undefined\<close> or a value of
  length \<open>0\<close>, in any asset table. Then \<^verbatim>\<open>startPlaylist\<close> throws nothing and does what
  \<^verbatim>\<open>stopBgm\<close> does and nothing else: the queue, the cursor, the current category, the
  alerts and the uncaught exceptions are unchanged and there is no active channel
  afterwards. A channel \<open>b\<close> that was active has lost its completion listener and is
  fading from its volume to \<open>0\<close> over 1000 ms, and a timer of 1000 ms is set for it.
  Through every later event the channel has no completion listener; as long as no
  timer fires the timer stays set, and when it fires the channel is stopped and
  unloaded. With no active channel the state is unchanged.
\<close>

theorem unknown_category_stops_music:
  assumes "bgm category = None \<or> (\<exists>v. bgm category = Some v \<and> js_length v = Some 0)"
  shows "startPlaylist bgm cur category rnd s = (None, stopBgm s)
       \<and> (bgm = ASSETS_bgm \<longrightarrow> step (StartPlaylist category rnd) s = stopBgm s)
       \<and> queueRef (stopBgm s) = queueRef s
       \<and> queueIndexRef (stopBgm s) = queueIndexRef s
       \<and> currentBgmCategory (stopBgm s) = currentBgmCategory s
       \<and> alerts (stopBgm s) = alerts s
       \<and> uncaught (stopBgm s) = uncaught s
       \<and> bgmRef (stopBgm s) = None
       \<and> (\<forall>b. bgmRef s = Some b \<and> b < length (sounds s) \<longrightarrow>
            sounds (stopBgm s) ! b
              = (sounds s ! b)\<lparr>onend := None, fade := Some (volume (sounds s ! b), 0, 1000)\<rparr>
            \<and> timers (stopBgm s) = timers s @ [(1000, b)]
            \<and> (\<forall>es. onend (sounds (run es (stopBgm s)) ! b) = None
                  \<and> ((\<forall>e \<in> set es. \<forall>k. e \<noteq> Timeout k) \<longrightarrow>
                       (1000, b) \<in> set (timers (run es (stopBgm s))))
                  \<and> (\<forall>k. k < length (timers (run es (stopBgm s)))
                         \<and> timers (run es (stopBgm s)) ! k = (1000, b) \<longrightarrow>
                         \<not> playing (sounds (step (Timeout k) (run es (stopBgm s))) ! b)
                         \<and> unloaded (sounds (step (Timeout k) (run es (stopBgm s))) ! b))))
       \<and> (bgmRef s = None \<longrightarrow> stopBgm s = s)"
proof -
  have e: "startPlaylist bgm cur category rnd s = (None, stopBgm s)" for cur
    using assms by (auto simp: startPlaylist_def Let_def)
  have g: "bgm = ASSETS_bgm \<longrightarrow> step (StartPlaylist category rnd) s = stopBgm s"
    using e [of "currentBgmCategory s"] by (auto simp: step_def handle_def render_after_def)
  have h: "sounds (stopBgm s) ! b
             = (sounds s ! b)\<lparr>onend := None, fade := Some (volume (sounds s ! b), 0, 1000)\<rparr>
         \<and> timers (stopBgm s) = timers s @ [(1000, b)]
         \<and> (\<forall>es. onend (sounds (run es (stopBgm s)) ! b) = None
               \<and> ((\<forall>e \<in> set es. \<forall>k. e \<noteq> Timeout k) \<longrightarrow>
                    (1000, b) \<in> set (timers (run es (stopBgm s))))
               \<and> (\<forall>k. k < length (timers (run es (stopBgm s)))
                      \<and> timers (run es (stopBgm s)) ! k = (1000, b) \<longrightarrow>
                      \<not> playing (sounds (step (Timeout k) (run es (stopBgm s))) ! b)
                      \<and> unloaded (sounds (step (Timeout k) (run es (stopBgm s))) ! b)))"
    if a: "bgmRef s = Some b" "b < length (sounds s)" for b
  proof -
    note l = stopBgm_lasting [OF a]
    have "\<not> playing (sounds (step (Timeout k) (run es (stopBgm s))) ! b)
        \<and> unloaded (sounds (step (Timeout k) (run es (stopBgm s))) ! b)"
      if "k < length (timers (run es (stopBgm s)))"
        "timers (run es (stopBgm s)) ! k = (1000, b)" for es k
      using that l(2) [of es] by (rule timer_releases)
    thus ?thesis
      using l(1,3) stopBgm_active [OF a] by blast
  qed
  have i: "bgmRef s = None \<longrightarrow> stopBgm s = s"
    by (simp add: stopBgm_idle)
  show ?thesis
    using e g h i by simp
qed

theorem unknown_category_stops_music_witness:
  "table_with_silence ''silence'' = Some (JArray [])
   \<and> startPlaylist table_with_silence (Some ''battle'') ''silence'' zero_draws playing_battle
       = (None, stopBgm playing_battle)
   \<and> ASSETS_bgm ''tavern'' = None
   \<and> step (StartPlaylist ''tavern'' zero_draws) playing_battle = stopBgm playing_battle
   \<and> ASSETS_bgm ''toString'' = Some (JFunction 0)
   \<and> step (StartPlaylist ''toString'' zero_draws) playing_battle = stopBgm playing_battle
   \<and> currentBgmCategory (stopBgm playing_battle) = currentBgmCategory playing_battle
   \<and> bgmRef (stopBgm playing_battle) = None
   \<and> timers (stopBgm playing_battle) = [(1000, 0)]
   \<and> unloaded (sounds (step (Timeout 0) (stopBgm playing_battle)) ! 0)"
proof -
  have a: "table_with_silence ''silence'' = Some (JArray [])"
    by (simp add: table_with_silence_def)
  have a': "table_with_silence ''silence'' = None
          \<or> (\<exists>v. table_with_silence ''silence'' = Some v \<and> js_length v = Some 0)"
    by (simp add: a js_length_def)
  have b: "ASSETS_bgm ''tavern'' = None"
    by (simp add: ASSETS_bgm_def Object_prototype_def)
  have b': "ASSETS_bgm ''tavern'' = None
          \<or> (\<exists>v. ASSETS_bgm ''tavern'' = Some v \<and> js_length v = Some 0)"
    by (simp add: b)
  have c: "ASSETS_bgm ''toString'' = Some (JFunction 0)"
    by (simp add: ASSETS_bgm_def Object_prototype_def)
  have c': "ASSETS_bgm ''toString'' = None
          \<or> (\<exists>v. ASSETS_bgm ''toString'' = Some v \<and> js_length v = Some 0)"
    by (simp add: c js_length_def)
  have p: "bgmRef playing_battle = Some 0 \<and> 0 < length (sounds playing_battle)
         \<and> timers playing_battle = []"
    by code_simp
  note A = unknown_category_stops_music
    [where bgm = table_with_silence and category = "''silence''" and cur = "Some ''battle''"
       and rnd = zero_draws and s = playing_battle, OF a']
  note B = unknown_category_stops_music
    [where bgm = ASSETS_bgm and category = "''tavern''" and cur = None
       and rnd = zero_draws and s = playing_battle, OF b']
  note C = unknown_category_stops_music
    [where bgm = ASSETS_bgm and category = "''toString''" and cur = None
       and rnd = zero_draws and s = playing_battle, OF c']
  have t: "timers (stopBgm playing_battle) = [(1000, 0)]"
    using B p by simp
  have r: "unloaded (sounds (step (Timeout 0) (run [] (stopBgm playing_battle))) ! 0)"
    using B p t by (metis length_Cons less_Suc0 list.size(3) nth_Cons_0 run.simps(1))
  show ?thesis
    using A B C a b c t r by simp
qed

text \<open>
  Claim C2 as stated fails. With the battle playlist playing, a click on a category
  that has no entry leaves no active channel and sends the channel that was playing
  to volume \<open>0\<close>. For the name \<^verbatim>\<open>constructor\<close>, which is no key of the configuration
  either, the lookup finds the inherited function: the current category is changed and
  a \<^verbatim>\<open>TypeError\<close> leaves the handler.
\<close>

theorem unknown_category_counterexample:
  "ASSETS_bgm ''tavern'' = None
   \<and> bgmRef playing_battle = Some 0
   \<and> playing (sounds playing_battle ! 0)
   \<and> target_volume (sounds playing_battle ! 0) = 1
   \<and> bgmRef (step (StartPlaylist ''tavern'' zero_draws) playing_battle) = None
   \<and> target_volume (sounds (step (StartPlaylist ''tavern'' zero_draws) playing_battle) ! 0) = 0
   \<and> step (StartPlaylist ''tavern'' zero_draws) playing_battle \<noteq> playing_battle
   \<and> ASSETS_bgm ''constructor'' = Some (JFunction 1)
   \<and> fst (startPlaylist ASSETS_bgm (Some ''battle'') ''constructor'' zero_draws playing_battle)
       = Some TypeError
   \<and> uncaught (step (StartPlaylist ''constructor'' zero_draws) playing_battle) = [TypeError]
   \<and> currentBgmCategory (step (StartPlaylist ''constructor'' zero_draws) playing_battle)
       = Some ''constructor''"
  by code_simp

text \<open>
  Claim C3 fails on the code. While the narrator speaks over the battle playlist the
  active channel is ducked to \<open>0.2\<close>; when its track ends and the listener is called,
  the next channel starts at volume \<open>0\<close> and fades to \<open>1\<close> over 2000 ms, and the
  ducking effect does not run again because neither of its dependencies changed.
\<close>

theorem track_advance_ignores_ducking:
  "isSpeaking narrating_battle
   \<and> bgmRef narrating_battle = Some 0
   \<and> target_volume (sounds narrating_battle ! 0) = 1 / 5
   \<and> pending (step (SoundEnd 0) narrating_battle) = [NextTrack None ''battle'']
   \<and> isSpeaking (run [SoundEnd 0, ListenerCall 0] narrating_battle)
   \<and> bgmRef (run [SoundEnd 0, ListenerCall 0] narrating_battle) = Some 2
   \<and> volume (sounds (run [SoundEnd 0, ListenerCall 0] narrating_battle) ! 2) = 0
   \<and> fade (sounds (run [SoundEnd 0, ListenerCall 0] narrating_battle) ! 2) = Some (0, 1, 2000)
   \<and> target_volume (sounds (run [SoundEnd 0, ListenerCall 0] narrating_battle) ! 2) = 1
   \<and> complete_active narrating_battle = run [SoundEnd 0, ListenerCall 0] narrating_battle"
  by code_simp

text \<open>
  Claim C4. After \<^verbatim>\<open>startPlaylist\<close> of a category with \<open>k\<close> tracks the queue is a
  permutation of the tracks and the cursor is \<open>0\<close>; after \<open>k\<close> completions of the active
  channel the cursor is \<open>0\<close> again, and after any number \<open>n\<close> of them the queue is the one
  set at activation. When the guard of \<^verbatim>\<open>playTrackInQueue\<close> let the first track
  through, the \<open>n\<close> completions did happen: the cursor is \<open>n mod k\<close> and \<open>n\<close> further
  channels were created. The completion closure itself never writes the queue; it
  increments the cursor and sets it to \<open>0\<close> when it reaches the length of the queue.
\<close>

theorem loop_keeps_order:
  assumes "ASSETS_bgm category = Some (JArray tracks)" and "tracks \<noteq> []" and "unit_draws rnd"
    and "s1 = step (StartPlaylist category rnd) s"
  shows "mset (queueRef s1) = mset tracks
       \<and> queueIndexRef s1 = 0
       \<and> queueIndexRef ((complete_active ^^ length tracks) s1) = 0
       \<and> queueRef ((complete_active ^^ n) s1) = queueRef s1
       \<and> (\<not> superseded (currentBgmCategory s) category \<longrightarrow>
            queueIndexRef ((complete_active ^^ n) s1) = n mod length tracks
            \<and> bgmRef ((complete_active ^^ n) s1) = Some (length (sounds s) + n))
       \<and> queueRef (track_onend cur c t) = queueRef t
       \<and> queueIndexRef (track_onend cur c t)
           = (if queueIndexRef t + 1 \<ge> length (queueRef t) then 0 else queueIndexRef t + 1)"
proof -
  let ?h = "snd (startPlaylist ASSETS_bgm (currentBgmCategory s) category rnd s)"
  have s1: "s1 = render_after s ?h"
    by (simp add: assms(4) step_StartPlaylist [OF assms(1,2)])
  have q: "queueRef s1 = shuffleArray rnd tracks" and i: "queueIndexRef s1 = 0"
    using startPlaylist_queue(2,3) [of ASSETS_bgm, OF assms(1,2)] by (simp_all add: s1)
  have len: "length (queueRef s1) = length tracks"
    by (simp add: q)
  have perm: "mset (queueRef s1) = mset tracks"
    using assms(3) by (simp add: q shuffleArray_mset)
  have loop: "queueIndexRef ((complete_active ^^ m) s1)
                = (if superseded (currentBgmCategory s) category then 0 else m mod length tracks)
            \<and> queueRef ((complete_active ^^ m) s1) = queueRef s1
            \<and> (\<not> superseded (currentBgmCategory s) category \<longrightarrow>
                 bgmRef ((complete_active ^^ m) s1) = Some (length (sounds s) + m))" for m
  proof (cases "superseded (currentBgmCategory s) category")
    case True
    have "bgmRef s1 = None"
      using startPlaylist_queue(4) [of ASSETS_bgm, OF assms(1,2) True] by (simp add: s1)
    thus ?thesis
      using True i by (simp add: funpow_complete_idle)
  next
    case False
    note act = startPlaylist_active [of ASSETS_bgm, OF assms(1,2) False, of rnd s]
    have b: "bgmRef s1 = Some (length (sounds s))"
      using act(1) by (simp add: s1)
    have l: "length (sounds s1) = Suc (length (sounds s))"
      using act(2) by (simp add: s1)
    have p: "playing (sounds s1 ! length (sounds s))"
      and o: "onend (sounds s1 ! length (sounds s))
                = Some (NextTrack (currentBgmCategory s) category)"
      using act(3) by (simp_all add: s1)
    have "length (sounds s) < length (sounds s1)"
      by (simp add: l)
    moreover have "queueIndexRef s1 < length (queueRef s1)"
      using assms(2) by (simp add: i len)
    moreover have "Suc (length (sounds s)) = length (sounds s1)"
      by (simp add: l)
    ultimately show ?thesis
      using funpow_complete_active [OF b _ p o False, of m] False by (simp add: i len)
  qed
  have "queueIndexRef ((complete_active ^^ length tracks) s1) = 0"
    using loop [of "length tracks"] by simp
  thus ?thesis
    using perm i loop [of n] track_onend_queue [of cur c t] by simp
qed

theorem loop_keeps_order_witness:
  "ASSETS_bgm ''battle'' = Some (JArray [''/assets/battle1.mp3'', ''/assets/battle2.mp3''])
   \<and> unit_draws zero_draws
   \<and> queueRef playing_battle = [''/assets/battle2.mp3'', ''/assets/battle1.mp3'']
   \<and> queueIndexRef ((complete_active ^^ 2) playing_battle) = 0
   \<and> queueRef ((complete_active ^^ 2) playing_battle) = queueRef playing_battle
   \<and> bgmRef ((complete_active ^^ 2) playing_battle) = Some 2"
proof -
  have a: "ASSETS_bgm ''battle'' = Some (JArray [''/assets/battle1.mp3'', ''/assets/battle2.mp3''])"
    by (simp add: ASSETS_bgm_def)
  have n: "[''/assets/battle1.mp3'', ''/assets/battle2.mp3''] \<noteq> []"
    by simp
  have d: "unit_draws zero_draws"
    by (simp add: unit_draws_def zero_draws_def)
  have g: "\<not> superseded (currentBgmCategory (initial_state [])) ''battle''"
    by (simp add: superseded_def initial_state_def)
  have q: "queueRef playing_battle = [''/assets/battle2.mp3'', ''/assets/battle1.mp3'']"
    by code_simp
  have l: "length (sounds (initial_state [])) = 0"
    by (simp add: initial_state_def)
  have m: "(2::nat) mod Suc (Suc 0) = 0"
    by (simp add: numeral_2_eq_2)
  note T = loop_keeps_order [OF a n d playing_battle_def, of 2]
  show ?thesis
    using T a d g q l m by simp
qed

text \<open>
  Claim C5 fails on the code. With the battle playlist active, a click on the thrill
  playlist stops the battle channel, records the new category and shuffles its queue,
  but the guard of \<^verbatim>\<open>playTrackInQueue\<close> reads the category of the render the click
  came from (\<open>battle\<close>), takes the call for a superseded one and returns: no sound is
  created and no channel is active.
\<close>

theorem category_switch_starts_nothing:
  "currentBgmCategory playing_battle = Some ''battle''
   \<and> bgmRef playing_battle = Some 0
   \<and> ASSETS_bgm ''thrill'' = Some (JArray [''/assets/thrill_theme.mp3''])
   \<and> currentBgmCategory (step (StartPlaylist ''thrill'' zero_draws) playing_battle) = Some ''thrill''
   \<and> queueRef (step (StartPlaylist ''thrill'' zero_draws) playing_battle)
       = [''/assets/thrill_theme.mp3'']
   \<and> queueIndexRef (step (StartPlaylist ''thrill'' zero_draws) playing_battle) = 0
   \<and> bgmRef (step (StartPlaylist ''thrill'' zero_draws) playing_battle) = None
   \<and> length (sounds (step (StartPlaylist ''thrill'' zero_draws) playing_battle))
       = length (sounds playing_battle)
   \<and> onend (sounds (step (StartPlaylist ''thrill'' zero_draws) playing_battle) ! 0) = None
   \<and> target_volume (sounds (step (StartPlaylist ''thrill'' zero_draws) playing_battle) ! 0) = 0"
  by code_simp

text \<open>
  Claim C6. With an active music channel and the flag off, setting the flag fades the
  channel from its current volume to \<open>0.2\<close> over 500 ms, and clearing it again fades
  the channel to \<open>1\<close> over 500 ms, so the volume the channel is heading to after the
  round trip is \<open>1\<close>. With no active music channel, setting the flag changes the flag
  and nothing else.
\<close>

theorem ducking_round_trip:
  assumes "bgmRef s = Some b" and "b < length (sounds s)" and "\<not> isSpeaking s"
    and "s1 = setIsSpeaking True s" and "s2 = setIsSpeaking False s1"
  shows "fade (sounds s1 ! b) = Some (volume (sounds s ! b), 1 / 5, 500)
       \<and> target_volume (sounds s1 ! b) = 1 / 5
       \<and> fade (sounds s2 ! b) = Some (volume (sounds s1 ! b), 1, 500)
       \<and> target_volume (sounds s2 ! b) = 1
       \<and> bgmRef s2 = Some b
       \<and> (\<forall>s0 v. bgmRef s0 = None \<longrightarrow> setIsSpeaking v s0 = s0\<lparr>isSpeaking := v\<rparr>)"
proof -
  have e1: "s1 = howl_fade b (volume (sounds s ! b)) (1 / 5) 500 (s\<lparr>isSpeaking := True\<rparr>)"
    using assms(1,3)
    by (simp add: assms(4) setIsSpeaking_def render_after_def ducking_effect_def howl_defs)
  have f1: "sounds s1 ! b = (sounds s ! b)\<lparr>volume := volume (sounds s ! b), fade := Some (volume (sounds s ! b), 1 / 5, 500)\<rparr>"
    and b1: "bgmRef s1 = Some b" and l1: "b < length (sounds s1)" and sp1: "isSpeaking s1"
    using assms(1,2) by (simp_all add: e1 howl_defs map_sound_nth)
  have e2: "s2 = howl_fade b (volume (sounds s1 ! b)) 1 500 (s1\<lparr>isSpeaking := False\<rparr>)"
    using b1 sp1
    by (simp add: assms(5) setIsSpeaking_def render_after_def ducking_effect_def howl_defs)
  have f2: "sounds s2 ! b = (sounds s1 ! b)\<lparr>volume := volume (sounds s1 ! b), fade := Some (volume (sounds s1 ! b), 1, 500)\<rparr>"
    and b2: "bgmRef s2 = Some b"
    using b1 l1 by (simp_all add: e2 howl_defs map_sound_nth)
  have idle: "\<forall>s0 v. bgmRef s0 = None \<longrightarrow> setIsSpeaking v s0 = s0\<lparr>isSpeaking := v\<rparr>"
    by (simp add: setIsSpeaking_def render_after_def ducking_effect_def)
  show ?thesis
    using idle b2 by (simp add: f1 f2 target_volume_def)
qed

theorem ducking_round_trip_witness:
  "bgmRef playing_battle = Some 0 \<and> \<not> isSpeaking playing_battle
   \<and> target_volume (sounds (setIsSpeaking True playing_battle) ! 0) = 1 / 5
   \<and> target_volume (sounds (setIsSpeaking False (setIsSpeaking True playing_battle)) ! 0) = 1
   \<and> setIsSpeaking True (initial_state []) = (initial_state [])\<lparr>isSpeaking := True\<rparr>"
proof -
  have b: "bgmRef playing_battle = Some 0"
    by code_simp
  have l: "0 < length (sounds playing_battle)"
    by code_simp
  have q: "\<not> isSpeaking playing_battle"
    by code_simp
  have i: "bgmRef (initial_state []) = None"
    by (simp add: initial_state_def)
  note T = ducking_round_trip [OF b l q refl refl]
  show ?thesis
    using T b q i by simp
qed

text \<open>
  Claim C7 fails on the code. The battle playlist was started from the first render
  and its first track has ended, with the call of the listener waiting. The stop
  button is clicked: there is no active channel and no current category, the listener
  is removed and the release is scheduled. The call that was waiting runs all the
  same, and the guard lets it through: the cursor advances and the next track is
  created and played on a new active channel, with no current category. The timer
  then stops and unloads the channel that was stopped; the new one keeps playing.
\<close>

theorem stop_does_not_cancel_waiting_completion:
  "bgmRef battle_track_ended = Some 0
   \<and> pending battle_track_ended = [NextTrack None ''battle'']
   \<and> bgmRef stopped_after_end = None
   \<and> currentBgmCategory stopped_after_end = None
   \<and> onend (sounds stopped_after_end ! 0) = None
   \<and> fade (sounds stopped_after_end ! 0) = Some (0, 0, 1000)
   \<and> timers stopped_after_end = [(1000, 0)]
   \<and> pending stopped_after_end = [NextTrack None ''battle'']
   \<and> currentBgmCategory (step (ListenerCall 0) stopped_after_end) = None
   \<and> queueIndexRef (step (ListenerCall 0) stopped_after_end) = 1
   \<and> bgmRef (step (ListenerCall 0) stopped_after_end) = Some 1
   \<and> src (sounds (step (ListenerCall 0) stopped_after_end) ! 1) = Some ''/assets/battle1.mp3''
   \<and> playing (sounds (step (ListenerCall 0) stopped_after_end) ! 1)
   \<and> unloaded (sounds (run [ListenerCall 0, Timeout 0] stopped_after_end) ! 0)
   \<and> playing (sounds (run [ListenerCall 0, Timeout 0] stopped_after_end) ! 1)
   \<and> bgmRef (run [ListenerCall 0, Timeout 0] stopped_after_end) = Some 1"
  by code_simp

text \<open>
  Claim C8. When the provider answers with a body that has an \<^verbatim>\<open>error\<close>, the only
  changes are an alert with the provider's message and the loading flag set to false:
  no sound is created, the narrator channel and the speaking flag are as before.
\<close>

theorem provider_error_surfaced:
  "step (ProviderAnswer (Body (Some message) audioContent) decoded) s
     = s\<lparr>alerts := alerts s @ [''Error: '' @ message], isLoadingTTS := False\<rparr>
   \<and> sounds (step (ProviderAnswer (Body (Some message) audioContent) decoded) s) = sounds s
   \<and> narratorRef (step (ProviderAnswer (Body (Some message) audioContent) decoded) s)
       = narratorRef s
   \<and> isSpeaking (step (ProviderAnswer (Body (Some message) audioContent) decoded) s)
       = isSpeaking s
   \<and> isLoadingTTS (step (ProviderAnswer (Body (Some message) audioContent) decoded) s) = False
   \<and> alerts (step (ProviderAnswer (Body (Some message) audioContent) decoded) s)
       = alerts s @ [''Error: '' @ message]"
  by (simp add: step_def handle_def render_after_def handleNarrate_resume_def narrate_catch_def)

text \<open>
  Claim C9, as amended. With no key, \<^verbatim>\<open>handleNarrate\<close> shows an alert and does nothing
  else. With a key and an empty text it returns at once with the whole state
  unchanged: nothing is shown. In both cases no request is sent to the provider, no
  sound is created and the loading and speaking flags are unchanged, also when the
  click is seen as one event.
\<close>

theorem narrate_rejections:
  "(apiKey s = [] \<longrightarrow>
      handleNarrate s = s\<lparr>alerts := alerts s @ [''Please enter a Google Cloud API Key first.'']\<rparr>)
   \<and> (apiKey s \<noteq> [] \<and> narratorText s = [] \<longrightarrow> handleNarrate s = s)
   \<and> (apiKey s = [] \<or> narratorText s = [] \<longrightarrow>
        requests (handleNarrate s) = requests s
        \<and> isLoadingTTS (handleNarrate s) = isLoadingTTS s
        \<and> isSpeaking (handleNarrate s) = isSpeaking s
        \<and> sounds (handleNarrate s) = sounds s
        \<and> narratorRef (handleNarrate s) = narratorRef s
        \<and> requests (step NarrateClick s) = requests s
        \<and> isLoadingTTS (step NarrateClick s) = isLoadingTTS s
        \<and> isSpeaking (step NarrateClick s) = isSpeaking s
        \<and> sounds (step NarrateClick s) = sounds s)"
  by (auto simp: handleNarrate_def step_def handle_def render_after_def)

theorem narrate_rejections_witness:
  "apiKey (initial_state []) = []
   \<and> handleNarrate (initial_state [])
       = (initial_state [])\<lparr>alerts := [''Please enter a Google Cloud API Key first.'']\<rparr>
   \<and> apiKey key_without_text \<noteq> [] \<and> narratorText key_without_text = []
   \<and> handleNarrate key_without_text = key_without_text
   \<and> requests (step NarrateClick key_without_text) = []"
proof -
  have a: "apiKey (initial_state []) = []" "alerts (initial_state []) = []"
    by (simp_all add: initial_state_def)
  have k: "apiKey key_without_text \<noteq> [] \<and> narratorText key_without_text = []
         \<and> requests key_without_text = []"
    by code_simp
  show ?thesis
    using narrate_rejections [of "initial_state []"] narrate_rejections [of key_without_text] a k
    by simp
qed

text \<open>
  Claim C9 as stated fails: with a key saved and no text entered, the call returns the
  state it was given, so no message and no result of any kind reaches the user.
\<close>

theorem empty_text_counterexample:
  "apiKey key_without_text = ''key''
   \<and> narratorText key_without_text = []
   \<and> alerts key_without_text = []
   \<and> handleNarrate key_without_text = key_without_text
   \<and> alerts (handleNarrate key_without_text) = []
   \<and> alerts (step NarrateClick key_without_text) = []
   \<and> step NarrateClick key_without_text = key_without_text"
  by code_simp

text \<open>
  Claim C10. For every array in the store and every random source with results in
  \<open>[0, 1)\<close>, \<^verbatim>\<open>shuffleArray\<close> returns a newly allocated array that is a permutation of
  its argument (same multiset of elements, same length); the argument array and every
  other array that existed before the call keep their contents, and the result depends
  on the argument's contents and the random source only.
\<close>

theorem shuffleArray_permutation_fresh:
  assumes "unit_draws rnd" and "array < length st"
  shows "fst (shuffleArray_store rnd array st) = length st
       \<and> length (snd (shuffleArray_store rnd array st)) = length st + 1
       \<and> mset (snd (shuffleArray_store rnd array st) ! fst (shuffleArray_store rnd array st))
           = mset (st ! array)
       \<and> length (snd (shuffleArray_store rnd array st) ! fst (shuffleArray_store rnd array st))
           = length (st ! array)
       \<and> (\<forall>a < length st. snd (shuffleArray_store rnd array st) ! a = st ! a)
       \<and> snd (shuffleArray_store rnd array st) ! fst (shuffleArray_store rnd array st)
           = shuffleArray rnd (st ! array)"
proof -
  have val: "snd (shuffleArray_store rnd array st) ! fst (shuffleArray_store rnd array st)
               = shuffleArray rnd (st ! array)"
    using assms(2) by (rule shuffleArray_store_value)
  have addr: "fst (shuffleArray_store rnd array st) = length st"
    by (simp add: shuffleArray_store_def spread_copy_def Let_def)
  have len: "length (snd (shuffleArray_store rnd array st)) = length st + 1"
    by (simp add: shuffleArray_store_def spread_copy_def Let_def)
  have keep: "\<forall>a < length st. snd (shuffleArray_store rnd array st) ! a = st ! a"
    by (simp add: shuffleArray_store_def spread_copy_def Let_def shuffle_loop_other nth_append)
  show ?thesis
    using val addr len keep assms(1) by (simp add: shuffleArray_mset)
qed

theorem shuffleArray_permutation_fresh_witness:
  "unit_draws (\<lambda>c. 1 / 2) \<and> (0::nat) < length [[''a'', ''b'', ''c'']]
   \<and> snd (shuffleArray_store (\<lambda>c. 1 / 2) 0 [[''a'', ''b'', ''c'']])
       = [[''a'', ''b'', ''c''], [''a'', ''c'', ''b'']]
   \<and> mset [''a'', ''c'', ''b''] = mset [''a'', ''b'', ''c'']"
proof -
  have d: "unit_draws (\<lambda>c. 1 / 2)"
    by (simp add: unit_draws_def)
  have l: "(0::nat) < length [[''a'', ''b'', ''c'']]"
    by simp
  have e: "snd (shuffleArray_store (\<lambda>c. 1 / 2) 0 [[''a'', ''b'', ''c'']])
             = [[''a'', ''b'', ''c''], [''a'', ''c'', ''b'']]"
    by code_simp
  show ?thesis
    using shuffleArray_permutation_fresh [OF d l] d e by simp
qed

end
